theory Spec2Isabelle
  imports
    Complex_Main
    "HOL-Library.Char_ord"
    "HOL-Library.List_Lexorder"
    "HOL-Library.Multiset"
    "HOL-Library.Log_Nat"
begin

section \<open>US stock ticker fetcher: a model of \<^verbatim>\<open>update_tickers.py\<close>\<close>

text \<open>
  The program has two phases. \<^verbatim>\<open>fetch_tickers\<close> turns the rows of one screener response
  into a list of ticker dictionaries (US only, one per symbol, five fields parsed from
  strings). \<^verbatim>\<open>save_files\<close> sorts that list by market capitalisation and writes it out:
  one full listing, three top-N prefixes and one file per industry.

  Conventions of the model:
  \<^item> A Python \<^verbatim>\<open>str\<close> is a \<^typ>\<open>string\<close> of ASCII characters; the character classes
    below are Python's, restricted to ASCII.
  \<^item> A Python \<^verbatim>\<open>float\<close> is a \<^emph>\<open>pyfloat\<close>: a rational (always one that binary64
    represents), an infinity or NaN. Parsing and multiplication round to nearest, ties to
    even, as IEEE 754 binary64 does. The sign of zero is not kept.
  \<^item> \<^verbatim>\<open>try/except\<close> is an option: \<open>None\<close> is the value of the \<^verbatim>\<open>except\<close> branch.
  \<^item> The file system is a record that the writer takes and returns. A file's contents are
    the rows written to it, as ticker records; the CSV text itself is not modelled, nor are
    console messages, the network call and its delay.
  \<^item> \<^verbatim>\<open>DataFrame.sort_values\<close> belongs to pandas, not to this program: it is a parameter of
    the writer, constrained by the contract pandas documents for it.
\<close>

subsection \<open>Python strings\<close>

text \<open>\<^verbatim>\<open>str.isspace\<close> on ASCII: tab, LF, VT, FF, CR, the separators 0x1C to 0x1F, space.
  \<^verbatim>\<open>str.strip()\<close> and the regular expression class \<^verbatim>\<open>\s\<close> use the same set.\<close>

definition isspace :: "char \<Rightarrow> bool" where
  "isspace c = (c \<in> set [CHR 0x09, CHR 0x0A, CHR 0x0B, CHR 0x0C, CHR 0x0D,
                          CHR 0x1C, CHR 0x1D, CHR 0x1E, CHR 0x1F, CHR '' ''])"

text \<open>\<^verbatim>\<open>s.strip()\<close>.\<close>

definition strip :: "string \<Rightarrow> string" where
  "strip s = rev (dropWhile isspace (rev (dropWhile isspace s)))"

text \<open>\<^verbatim>\<open>s.replace(c, '')\<close> for a single character \<open>c\<close>: every occurrence is removed.\<close>

definition replace_del :: "char \<Rightarrow> string \<Rightarrow> string" where
  "replace_del c s = filter (\<lambda>x. x \<noteq> c) s"

text \<open>\<^verbatim>\<open>s.endswith(suffix)\<close>.\<close>

definition endswith :: "string \<Rightarrow> string \<Rightarrow> bool" where
  "endswith s suffix = (length suffix \<le> length s \<and> drop (length s - length suffix) s = suffix)"

text \<open>\<^verbatim>\<open>s.lower()\<close> on ASCII.\<close>

definition lower_char :: "char \<Rightarrow> char" where
  "lower_char c = (if CHR ''A'' \<le> c \<and> c \<le> CHR ''Z'' then char_of (of_char c + 32 :: nat) else c)"

definition lower :: "string \<Rightarrow> string" where
  "lower s = map lower_char s"

definition is_digit :: "char \<Rightarrow> bool" where
  "is_digit c = (c \<in> set ''0123456789'')"

text \<open>The regular expression class \<^verbatim>\<open>\w\<close> on ASCII: letters, digits and the underscore.\<close>

definition is_word :: "char \<Rightarrow> bool" where
  "is_word c = ((CHR ''a'' \<le> c \<and> c \<le> CHR ''z'') \<or> (CHR ''A'' \<le> c \<and> c \<le> CHR ''Z'')
                \<or> is_digit c \<or> c = CHR ''_'')"

text \<open>\<^verbatim>\<open>str(n)\<close> for a natural number, as the f-string \<^verbatim>\<open>f"tickers/top_{n}.csv"\<close> renders it.\<close>

fun str_nat :: "nat \<Rightarrow> string" where
  "str_nat n = (if n < 10 then [char_of (48 + n)]
                else str_nat (n div 10) @ [char_of (48 + n mod 10)])"

subsection \<open>Python floats and the builtins \<^verbatim>\<open>float()\<close> and \<^verbatim>\<open>int()\<close>\<close>

datatype pyfloat = Finite rat | PosInf | NegInf | NaN

definition pow2 :: "int \<Rightarrow> rat" where
  "pow2 k = (if 0 \<le> k then 2 ^ nat k else 1 / 2 ^ nat (- k))"

definition pow10 :: "int \<Rightarrow> rat" where
  "pow10 k = (if 0 \<le> k then 10 ^ nat k else 1 / 10 ^ nat (- k))"

definition round_half_even :: "rat \<Rightarrow> int" where
  "round_half_even x =
     (let f = \<lfloor>x\<rfloor>; r = x - of_int f
      in if r < 1 / 2 then f else if 1 / 2 < r then f + 1 else if even f then f else f + 1)"

text \<open>The binary exponent of a positive rational: the \<open>k\<close> with \<open>2 ^ k \<le> q < 2 ^ (k + 1)\<close>.\<close>

definition ilog2 :: "rat \<Rightarrow> int" where
  "ilog2 q = (let (n, d) = quotient_of q; k = bitlen n - bitlen d
              in if pow2 k \<le> q then k else k - 1)"

text \<open>Rounding a positive rational to binary64: 53 significant bits, exponents from
  \<open>-1022\<close> (below it the spacing stays \<open>2 ^ -1074\<close>, the subnormal numbers), and infinity
  from \<open>2 ^ 1024\<close> on.\<close>

definition round_pos :: "rat \<Rightarrow> pyfloat" where
  "round_pos q =
     (let e = max (ilog2 q) (- 1022); ulp = pow2 (e - 52);
          r = of_int (round_half_even (q / ulp)) * ulp
      in if pow2 1024 \<le> r then PosInf else Finite r)"

fun fneg :: "pyfloat \<Rightarrow> pyfloat" where
  "fneg (Finite a) = Finite (- a)"
| "fneg PosInf = NegInf"
| "fneg NegInf = PosInf"
| "fneg NaN = NaN"

definition round_double :: "rat \<Rightarrow> pyfloat" where
  "round_double q =
     (if q = 0 then Finite 0 else if 0 < q then round_pos q else fneg (round_pos (- q)))"

fun is_neg :: "pyfloat \<Rightarrow> bool" where
  "is_neg (Finite a) = (a < 0)"
| "is_neg NegInf = True"
| "is_neg _ = False"

text \<open>Float multiplication \<^verbatim>\<open>x * y\<close>.\<close>

definition fmul :: "pyfloat \<Rightarrow> pyfloat \<Rightarrow> pyfloat" where
  "fmul x y =
     (case (x, y) of
        (Finite a, Finite b) \<Rightarrow> round_double (a * b)
      | _ \<Rightarrow> if x = NaN \<or> y = NaN \<or> x = Finite 0 \<or> y = Finite 0 then NaN
             else if is_neg x = is_neg y then PosInf else NegInf)"

text \<open>Float comparison \<^verbatim>\<open>x <= y\<close>; every comparison with NaN is false.\<close>

fun fle :: "pyfloat \<Rightarrow> pyfloat \<Rightarrow> bool" where
  "fle NaN _ = False"
| "fle _ NaN = False"
| "fle NegInf _ = True"
| "fle _ PosInf = True"
| "fle (Finite a) (Finite b) = (a \<le> b)"
| "fle _ _ = False"

text \<open>The whitespace that \<^verbatim>\<open>float()\<close> and \<^verbatim>\<open>int()\<close> skip around an ASCII string: space, tab,
  LF, VT, FF and CR only. The separators 0x1C to 0x1F, which \<^verbatim>\<open>str.strip()\<close> removes, are not
  among them: \<^verbatim>\<open>float("1.2\x1c")\<close> raises \<^verbatim>\<open>ValueError\<close>.\<close>

definition builtin_isspace :: "char \<Rightarrow> bool" where
  "builtin_isspace c = (c \<in> set [CHR 0x09, CHR 0x0A, CHR 0x0B, CHR 0x0C, CHR 0x0D, CHR '' ''])"

definition builtin_strip :: "string \<Rightarrow> string" where
  "builtin_strip s = rev (dropWhile builtin_isspace (rev (dropWhile builtin_isspace s)))"

definition digit_val :: "char \<Rightarrow> nat" where
  "digit_val c = of_char c - 48"

text \<open>The grammar's \<^verbatim>\<open>digitpart ::= digit (["_"] digit)*\<close>: digits, with single underscores
  allowed between two digits.\<close>

fun digitpart :: "string \<Rightarrow> bool" where
  "digitpart [] = False"
| "digitpart [c] = is_digit c"
| "digitpart (c # d # cs) =
     (is_digit c \<and> (if d = CHR ''_'' then digitpart cs else digitpart (d # cs)))"

definition digits_val :: "string \<Rightarrow> nat" where
  "digits_val s = foldl (\<lambda>a c. 10 * a + digit_val c) 0 (filter is_digit s)"

definition split_sign :: "string \<Rightarrow> bool \<times> string" where
  "split_sign s =
     (case s of
        [] \<Rightarrow> (False, [])
      | c # cs \<Rightarrow> if c = CHR ''-'' then (True, cs)
                 else if c = CHR ''+'' then (False, cs) else (False, s))"

text \<open>\<^verbatim>\<open>int(s)\<close> for a string, base 10: surrounding whitespace (of the builtins' set), an
  optional sign, a \<^verbatim>\<open>digitpart\<close>. \<open>None\<close> is \<^verbatim>\<open>ValueError\<close>. (The interpreter's limit on the number of digits
  of one conversion is not modelled.)\<close>

definition py_int :: "string \<Rightarrow> int option" where
  "py_int s =
     (let (neg, ds) = split_sign (builtin_strip s)
      in if digitpart ds
         then Some (if neg then - int (digits_val ds) else int (digits_val ds))
         else None)"

text \<open>The unsigned decimal forms of \<^verbatim>\<open>float(s)\<close>:
  \<^verbatim>\<open>number ::= [digitpart] "." digitpart | digitpart ["."]\<close>, then an optional
  \<^verbatim>\<open>exponent ::= ("e" | "E") [sign] digitpart\<close>. The result is the exact value.\<close>

definition float_number :: "string \<Rightarrow> rat option" where
  "float_number s =
     (let m = takeWhile (\<lambda>c. c \<notin> set ''eE'') s; ex = drop (length m) s;
          ip = takeWhile (\<lambda>c. c \<noteq> CHR ''.'') m; fp = drop (Suc (length ip)) m
      in if \<not> (if length ip < length m
                then (ip = [] \<or> digitpart ip) \<and> (fp = [] \<or> digitpart fp) \<and> \<not> (ip = [] \<and> fp = [])
                else digitpart ip)
         then None
         else let mant = digits_val (ip @ fp); nfrac = length (filter is_digit fp)
              in if ex = [] then Some (of_nat mant * pow10 (- int nfrac))
                 else let (neg, ds) = split_sign (tl ex)
                      in if digitpart ds
                         then Some (of_nat mant *
                                pow10 ((if neg then - int (digits_val ds) else int (digits_val ds))
                                       - int nfrac))
                         else None)"

text \<open>\<^verbatim>\<open>float(s)\<close> for a string: surrounding whitespace (of the builtins' set), an optional
  sign, then
  \<^verbatim>\<open>inf\<close>, \<^verbatim>\<open>infinity\<close> or \<^verbatim>\<open>nan\<close> in any case, or a decimal number, rounded to binary64.
  \<open>None\<close> is \<^verbatim>\<open>ValueError\<close>.\<close>

definition py_float :: "string \<Rightarrow> pyfloat option" where
  "py_float s =
     (let (neg, body) = split_sign (builtin_strip s)
      in if lower body = ''inf'' \<or> lower body = ''infinity''
         then Some (if neg then NegInf else PosInf)
         else if lower body = ''nan'' then Some NaN
         else map_option (\<lambda>q. if neg then fneg (round_double q) else round_double q)
                (float_number body))"

subsection \<open>The field parsers\<close>

text \<open>The dictionary \<^verbatim>\<open>multipliers\<close> of \<^verbatim>\<open>parse_market_cap\<close>, in insertion order, which is
  the order \<^verbatim>\<open>.items()\<close> iterates in. The literals \<^verbatim>\<open>1e12\<close>, \<^verbatim>\<open>1e9\<close>, \<^verbatim>\<open>1e6\<close>, \<^verbatim>\<open>1e3\<close> are
  exact in binary64.\<close>

definition multipliers :: "(char \<times> pyfloat) list" where
  "multipliers = [(CHR ''T'', Finite (10 ^ 12)), (CHR ''B'', Finite (10 ^ 9)),
                  (CHR ''M'', Finite (10 ^ 6)), (CHR ''K'', Finite (10 ^ 3))]"

text \<open>The \<^verbatim>\<open>for suffix, mult in multipliers.items()\<close> loop with its \<^verbatim>\<open>return\<close> inside, and the
  \<^verbatim>\<open>return float(s)\<close> after it. A \<^verbatim>\<open>ValueError\<close> of \<^verbatim>\<open>float\<close> reaches the \<^verbatim>\<open>except\<close>.\<close>

fun suffix_loop :: "(char \<times> pyfloat) list \<Rightarrow> string \<Rightarrow> pyfloat option" where
  "suffix_loop [] s = py_float s"
| "suffix_loop ((suffix, mul) # rest) s =
     (if endswith s [suffix]
      then (case py_float (butlast s) of None \<Rightarrow> None | Some x \<Rightarrow> Some (fmul x mul))
      else suffix_loop rest s)"

definition parse_market_cap :: "string \<Rightarrow> pyfloat option" where
  "parse_market_cap s =
     (if s = [] \<or> s = ''N/A'' then None
      else suffix_loop multipliers (strip (replace_del (CHR '','') (replace_del (CHR ''$'') s))))"

definition parse_number :: "string \<Rightarrow> pyfloat option" where
  "parse_number s =
     (if s = [] \<or> s = ''N/A'' then None
      else py_float (strip (replace_del (CHR '','') (replace_del (CHR ''$'') s))))"

definition parse_int :: "string \<Rightarrow> int option" where
  "parse_int s =
     (if s = [] \<or> s = ''N/A'' then None
      else py_int (strip (replace_del (CHR '','') s)))"

subsection \<open>The normalizer: the row loop of \<^verbatim>\<open>fetch_tickers\<close>\<close>

text \<open>A raw row is a dictionary from keys to strings; a key may be absent.\<close>

type_synonym raw_row = "string \<rightharpoonup> string"

text \<open>\<^verbatim>\<open>row.get(key, default)\<close>.\<close>

definition row_get :: "raw_row \<Rightarrow> string \<Rightarrow> string \<Rightarrow> string" where
  "row_get row key dflt = (case row key of None \<Rightarrow> dflt | Some v \<Rightarrow> v)"

record ticker =
  symbol :: string
  name :: string
  price :: "pyfloat option"
  marketCap :: "pyfloat option"
  volume :: "int option"
  industry :: string

text \<open>The local variables of the loop.\<close>

record fetch_state =
  tickers :: "ticker list"
  seen_symbols :: "string set"
  non_us_count :: nat
  duplicate_count :: nat

text \<open>The dictionary appended for a retained row.\<close>

definition make_ticker :: "string \<Rightarrow> raw_row \<Rightarrow> ticker" where
  "make_ticker symb row =
     \<lparr>symbol = symb,
      name = row_get row ''name'' [],
      price = parse_number (row_get row ''lastsale'' []),
      marketCap = parse_market_cap (row_get row ''marketCap'' []),
      volume = parse_int (row_get row ''volume'' []),
      industry = row_get row ''sector'' []\<rparr>"

text \<open>One iteration of \<^verbatim>\<open>for row in rows\<close>; each \<^verbatim>\<open>continue\<close> is a branch that leaves the
  result list as it is.\<close>

definition row_step :: "fetch_state \<Rightarrow> raw_row \<Rightarrow> fetch_state" where
  "row_step st row =
     (if row ''country'' \<noteq> Some ''United States''
      then st\<lparr>non_us_count := non_us_count st + 1\<rparr>
      else let symb = strip (row_get row ''symbol'' [])
           in if symb = [] \<or> symb \<in> seen_symbols st
              then st\<lparr>duplicate_count := duplicate_count st + 1\<rparr>
              else st\<lparr>seen_symbols := insert symb (seen_symbols st),
                      tickers := tickers st @ [make_ticker symb row]\<rparr>)"

text \<open>\<^verbatim>\<open>fetch_tickers\<close>, as a function of the response: \<open>None\<close> when the request or the JSON
  decoding raised (the \<^verbatim>\<open>except\<close> branch returns the empty list), \<open>Some rows\<close> otherwise.\<close>

definition fetch_tickers :: "raw_row list option \<Rightarrow> ticker list" where
  "fetch_tickers response =
     (case response of
        None \<Rightarrow> []
      | Some rows \<Rightarrow>
          if rows = [] then []
          else tickers (foldl row_step
                 \<lparr>tickers = [], seen_symbols = {}, non_us_count = 0, duplicate_count = 0\<rparr> rows))"

subsection \<open>The writer: \<^verbatim>\<open>save_files\<close>\<close>

record filesystem =
  dirs :: "string set"
  files :: "string \<rightharpoonup> ticker list"

text \<open>\<^verbatim>\<open>os.makedirs(d, exist_ok=True)\<close> and \<^verbatim>\<open>df.to_csv(path, index=False)\<close>.\<close>

definition makedirs :: "string \<Rightarrow> filesystem \<Rightarrow> filesystem" where
  "makedirs d fs = fs\<lparr>dirs := insert d (dirs fs)\<rparr>"

definition to_csv :: "ticker list \<Rightarrow> string \<Rightarrow> filesystem \<Rightarrow> filesystem" where
  "to_csv df path fs = fs\<lparr>files := (files fs)(path \<mapsto> df)\<rparr>"

text \<open>\<^verbatim>\<open>Series.unique()\<close>: the distinct values in order of first appearance.\<close>

definition unique :: "'a list \<Rightarrow> 'a list" where
  "unique xs = rev (remdups (rev xs))"

text \<open>\<^verbatim>\<open>re.sub(r'\s+', '_', s)\<close>: every maximal run of whitespace becomes one underscore.\<close>

function sub_ws :: "string \<Rightarrow> string" where
  "sub_ws [] = []"
| "sub_ws (c # cs) =
     (if isspace c then CHR ''_'' # sub_ws (dropWhile isspace cs) else c # sub_ws cs)"
  by pat_completeness auto
termination
  by (relation "measure length") (auto simp: le_imp_less_Suc length_dropWhile_le)

text \<open>The two substitutions that make \<^verbatim>\<open>safe_name\<close>:
  \<^verbatim>\<open>re.sub(r'[^\w\s-]', '', industry.lower())\<close>, then \<^verbatim>\<open>re.sub(r'\s+', '_', safe_name.strip())\<close>.\<close>

definition safe_name :: "string \<Rightarrow> string" where
  "safe_name ind =
     sub_ws (strip (filter (\<lambda>c. is_word c \<or> isspace c \<or> c = CHR ''-'') (lower ind)))"

text \<open>pandas' \<^verbatim>\<open>isna\<close> on a cell of the \<^verbatim>\<open>marketCap\<close> column: in a data frame \<^verbatim>\<open>None\<close> and NaN
  are the same missing value.\<close>

definition isna :: "pyfloat option \<Rightarrow> bool" where
  "isna v = (v = None \<or> v = Some NaN)"

text \<open>The order \<^verbatim>\<open>sort_values('marketCap', ascending=False)\<close> establishes (with the default
  \<^verbatim>\<open>na_position='last'\<close>): \<open>cap_before a b\<close> holds when row \<open>a\<close> may stand before row \<open>b\<close>.\<close>

definition cap_before :: "ticker \<Rightarrow> ticker \<Rightarrow> bool" where
  "cap_before a b =
     (case marketCap b of
        None \<Rightarrow> True
      | Some y \<Rightarrow> if y = NaN then True
                  else (case marketCap a of None \<Rightarrow> False | Some x \<Rightarrow> fle y x))"

text \<open>What pandas documents for \<^verbatim>\<open>sort_values\<close> with these arguments, whatever the sorting
  algorithm: the result holds the same rows, in descending order of the column, missing
  values last. The source passes no \<^verbatim>\<open>kind\<close>, so the algorithm is the default
  \<^verbatim>\<open>'quicksort'\<close>, for which the order of rows with equal keys is not part of the contract.\<close>

definition sort_values_ok :: "(ticker list \<Rightarrow> ticker list) \<Rightarrow> bool" where
  "sort_values_ok srt = (\<forall>xs. mset (srt xs) = mset xs \<and> sorted_wrt cap_before (srt xs))"

definition top_path :: "nat \<Rightarrow> string" where
  "top_path n = ''tickers/top_'' @ str_nat n @ ''.csv''"

definition industry_path :: "string \<Rightarrow> string" where
  "industry_path safe = ''by_industry/'' @ safe @ ''.csv''"

text \<open>The list the industry loop runs over: \<^verbatim>\<open>sorted(industries)\<close>, after
  \<^verbatim>\<open>[i for i in industries if i and i.strip()]\<close>.\<close>

definition industries_of :: "ticker list \<Rightarrow> string list" where
  "industries_of df = sort (filter (\<lambda>i. i \<noteq> [] \<and> strip i \<noteq> []) (unique (map industry df)))"

text \<open>One iteration of \<^verbatim>\<open>for industry in sorted(industries)\<close>.\<close>

definition write_industry :: "ticker list \<Rightarrow> filesystem \<Rightarrow> string \<Rightarrow> filesystem" where
  "write_industry df fs ind =
     (let industry_df = filter (\<lambda>t. industry t = ind) df
      in if length industry_df = 0 then fs
         else to_csv industry_df (industry_path (safe_name ind)) fs)"

text \<open>\<^verbatim>\<open>save_files(tickers)\<close>, with the library's sort as its first argument and the file
  system before the call as its last; it returns the boolean and the file system after.\<close>

definition save_files ::
    "(ticker list \<Rightarrow> ticker list) \<Rightarrow> ticker list \<Rightarrow> filesystem \<Rightarrow> bool \<times> filesystem" where
  "save_files sort_values tks fs0 =
     (if tks = [] then (False, fs0)
      else let df = sort_values tks;
               fs1 = makedirs ''by_industry'' (makedirs ''tickers'' fs0);
               fs2 = to_csv df ''tickers/all.csv'' fs1;
               fs3 = foldl (\<lambda>fs n. to_csv (take n df) (top_path n) fs) fs2 [50, 100, 200];
               fs4 = foldl (write_industry df) fs3 (industries_of df)
           in (True, fs4))"

subsection \<open>A sort that meets the contract\<close>

text \<open>An insertion sort into the order \<open>cap_before\<close>, each row put before the rows
  that come later in the input and are not greater. It stands in for the library's sort
  where the model is run on concrete rows.\<close>

fun insert_desc :: "ticker \<Rightarrow> ticker list \<Rightarrow> ticker list" where
  "insert_desc t [] = [t]"
| "insert_desc t (u # us) = (if cap_before t u then t # u # us else u # insert_desc t us)"

definition insertion_sort_values :: "ticker list \<Rightarrow> ticker list" where
  "insertion_sort_values xs = foldr insert_desc xs []"

subsection \<open>The specification's wording of the parsers\<close>

text \<open>The stripping rule of numeric-parse and market-cap-parse: remove the characters
  \<^verbatim>\<open>$\<close> and \<^verbatim>\<open>,\<close>, then the surrounding whitespace.\<close>

definition spec_clean :: "string \<Rightarrow> string" where
  "spec_clean s = strip (filter (\<lambda>c. c \<noteq> CHR ''$'' \<and> c \<noteq> CHR '','') s)"

text \<open>The suffix table \<^verbatim>\<open>{T:1e12, B:1e9, M:1e6, K:1e3}\<close>.\<close>

definition spec_suffix_factor :: "char \<Rightarrow> pyfloat option" where
  "spec_suffix_factor c =
     (if c = CHR ''T'' then Some (Finite (10 ^ 12))
      else if c = CHR ''B'' then Some (Finite (10 ^ 9))
      else if c = CHR ''M'' then Some (Finite (10 ^ 6))
      else if c = CHR ''K'' then Some (Finite (10 ^ 3))
      else None)"

text \<open>market-cap-parse: null on the empty string and on \<^verbatim>\<open>N/A\<close>; otherwise, when the
  cleaned string ends with a suffix of the table, the float parse of what stands before
  the suffix, times the factor; otherwise the float parse of the cleaned string; null
  wherever the float parse fails.\<close>

definition spec_market_cap_parse :: "string \<Rightarrow> pyfloat option" where
  "spec_market_cap_parse s =
     (if s = [] \<or> s = ''N/A'' then None
      else let c = spec_clean s
           in case (if c = [] then None else spec_suffix_factor (last c)) of
                Some f \<Rightarrow> (case py_float (butlast c) of None \<Rightarrow> None | Some x \<Rightarrow> Some (fmul x f))
              | None \<Rightarrow> py_float c)"

text \<open>numeric-parse: null on the empty string and on \<^verbatim>\<open>N/A\<close>, otherwise the float parse
  of the cleaned string.\<close>

definition spec_numeric_parse :: "string \<Rightarrow> pyfloat option" where
  "spec_numeric_parse s = (if s = [] \<or> s = ''N/A'' then None else py_float (spec_clean s))"

text \<open>integer-parse with the stripping rule of numeric-parse (\<^verbatim>\<open>$\<close> and \<^verbatim>\<open>,\<close> removed),
  and integer-parse removing commas only.\<close>

definition spec_integer_parse_dollar :: "string \<Rightarrow> int option" where
  "spec_integer_parse_dollar s = (if s = [] \<or> s = ''N/A'' then None else py_int (spec_clean s))"

definition spec_integer_parse :: "string \<Rightarrow> int option" where
  "spec_integer_parse s =
     (if s = [] \<or> s = ''N/A'' then None
      else py_int (strip (filter (\<lambda>c. c \<noteq> CHR '','') s)))"

subsection \<open>The rows the loop retains\<close>

text \<open>The two tests of the loop body, and the rows for which it appends a record, given
  the symbols seen so far. The loop is proved to append exactly these.\<close>

definition is_us :: "raw_row \<Rightarrow> bool" where
  "is_us row = (row ''country'' = Some ''United States'')"

definition trimmed_symbol :: "raw_row \<Rightarrow> string" where
  "trimmed_symbol row = strip (row_get row ''symbol'' [])"

fun retained :: "string set \<Rightarrow> raw_row list \<Rightarrow> raw_row list" where
  "retained seen [] = []"
| "retained seen (r # rs) =
     (if is_us r \<and> trimmed_symbol r \<noteq> [] \<and> trimmed_symbol r \<notin> seen
      then r # retained (insert (trimmed_symbol r) seen) rs
      else retained seen rs)"

definition ticker_of :: "raw_row \<Rightarrow> ticker" where
  "ticker_of row = make_ticker (trimmed_symbol row) row"

subsection \<open>The writer's outputs, in the specification's words\<close>

text \<open>The paths the writer writes for a non-empty input: the full listing, the three top-N
  files, and one partition file for every industry value that is not empty after
  trimming.\<close>

definition output_paths :: "ticker list \<Rightarrow> string set" where
  "output_paths tks =
     {''tickers/all.csv'', ''tickers/top_50.csv'', ''tickers/top_100.csv'', ''tickers/top_200.csv''}
     \<union> (\<lambda>i. industry_path (safe_name i)) ` {i \<in> industry ` set tks. strip i \<noteq> []}"

text \<open>No row with a missing market capitalisation stands before a row that has one.\<close>

definition nulls_last :: "ticker list \<Rightarrow> bool" where
  "nulls_last rows =
     (\<forall>i j. i < j \<and> j < length rows \<and> isna (marketCap (rows ! i)) \<longrightarrow> isna (marketCap (rows ! j)))"

text \<open>The sanitization rule: lower-case; drop every character that is not alphanumeric,
  underscore, whitespace or hyphen; trim; turn each run of whitespace into one underscore
  (a whitespace character gives an underscore only when no whitespace follows it).\<close>

definition is_alnum :: "char \<Rightarrow> bool" where
  "is_alnum c = ((CHR ''a'' \<le> c \<and> c \<le> CHR ''z'') \<or> (CHR ''A'' \<le> c \<and> c \<le> CHR ''Z'')
                 \<or> is_digit c)"

fun spec_collapse :: "string \<Rightarrow> string" where
  "spec_collapse [] = []"
| "spec_collapse [c] = (if isspace c then ''_'' else [c])"
| "spec_collapse (c # d # cs) =
     (if isspace c
      then (if isspace d then spec_collapse (d # cs) else CHR ''_'' # spec_collapse (d # cs))
      else c # spec_collapse (d # cs))"

definition spec_sanitize :: "string \<Rightarrow> string" where
  "spec_sanitize ind =
     spec_collapse (strip (filter (\<lambda>c. is_alnum c \<or> c = CHR ''_'' \<or> isspace c \<or> c = CHR ''-'')
                             (map lower_char ind)))"

subsection \<open>Example records\<close>

definition ex_tech :: ticker where
  "ex_tech = \<lparr>symbol = ''AAA'', name = ''Alpha'', price = None,
              marketCap = Some (Finite 2), volume = None, industry = ''Tech''\<rparr>"

definition ex_tech_dot :: ticker where
  "ex_tech_dot = \<lparr>symbol = ''BBB'', name = ''Beta'', price = None,
              marketCap = Some (Finite 1), volume = None, industry = ''Tech.''\<rparr>"

definition ex_null :: ticker where
  "ex_null = \<lparr>symbol = ''CCC'', name = ''Gamma'', price = None,
              marketCap = None, volume = None, industry = ''Tech''\<rparr>"

definition ex_tie :: ticker where
  "ex_tie = \<lparr>symbol = ''DDD'', name = ''Delta'', price = None,
              marketCap = Some (Finite 2), volume = None, industry = ''Energy''\<rparr>"

definition empty_fs :: filesystem where
  "empty_fs = \<lparr>dirs = {}, files = Map.empty\<rparr>"

section \<open>Properties\<close>

subsection \<open>The writer on an empty list\<close>

text \<open>
  Claim C8. Called with an empty list of records, the writer returns failure at once and
  has no effect on the file system: the directories and the files after the call are those
  before it, whatever the sort and the file system are.
\<close>

theorem save_files_empty_no_effect:
  "save_files srt [] fs = (False, fs)"
  by (simp add: save_files_def)

subsection \<open>The float model\<close>

text \<open>\<open>ilog2\<close> is the binary exponent, and rounding returns a multiple of the unit in the
  last place that is at most half a unit away.\<close>

lemma pow2_powi: "pow2 k = 2 powi k"
  by (simp add: pow2_def power_int_def inverse_eq_divide power_one_over)

lemma pow2_pos: "0 < pow2 k"
  by (simp add: pow2_powi)

lemma pow2_add: "pow2 (a + b) = pow2 a * pow2 b"
  by (simp add: pow2_powi power_int_add)

lemma bitlen_pow2:
  assumes "0 < n"
  shows "pow2 (bitlen n - 1) \<le> of_int n \<and> of_int n < pow2 (bitlen n)"
proof -
  have pos: "1 \<le> bitlen n"
    using assms by (simp add: bitlen_def floorlog_def)
  then have e: "pow2 (bitlen n - 1) = of_int (2 ^ nat (bitlen n - 1))"
      "pow2 (bitlen n) = of_int (2 ^ nat (bitlen n))"
    by (simp_all add: pow2_def)
  show ?thesis
    unfolding e of_int_le_iff of_int_less_iff using bitlen_bounds [OF assms] .
qed

lemma ilog2_bounds:
  assumes "0 < q"
  shows "pow2 (ilog2 q) \<le> q \<and> q < pow2 (ilog2 q + 1)"
proof -
  obtain n d where nd: "quotient_of q = (n, d)"
    by (cases "quotient_of q")
  then have d: "0 < d" and q: "q = of_int n / of_int d"
    by (simp_all add: quotient_of_denom_pos quotient_of_div)
  with assms have n: "0 < n"
    by (simp add: zero_less_divide_iff)
  define bn bd where "bn = bitlen n" and "bd = bitlen d"
  have bn': "pow2 (bn - 1) \<le> of_int n" "of_int n < pow2 bn"
    using bitlen_pow2 [OF n] by (simp_all add: bn_def)
  have bd': "pow2 (bd - 1) \<le> of_int d" "of_int d < pow2 bd"
    using bitlen_pow2 [OF d] by (simp_all add: bd_def)
  have dpos: "(0::rat) < of_int d" using d by simp
  have upper: "q < pow2 (bn - bd + 1)"
  proof -
    have "q * of_int d = of_int n" using q dpos by simp
    also have "\<dots> < pow2 bn" by (rule bn'(2))
    also have "\<dots> = pow2 (bn - bd + 1) * pow2 (bd - 1)"
      by (simp add: pow2_add [symmetric])
    also have "\<dots> \<le> pow2 (bn - bd + 1) * of_int d"
      using bd'(1) pow2_pos [of "bn - bd + 1"] by (simp add: mult_left_mono)
    finally show ?thesis using dpos by simp
  qed
  have lower: "pow2 (bn - bd - 1) \<le> q"
  proof -
    have "pow2 (bn - bd - 1) * of_int d \<le> pow2 (bn - bd - 1) * pow2 bd"
      using bd'(2) pow2_pos [of "bn - bd - 1"] by (simp add: mult_left_mono)
    also have "\<dots> = pow2 (bn - 1)"
      by (simp add: pow2_add [symmetric])
    also have "\<dots> \<le> of_int n" by (rule bn'(1))
    also have "\<dots> = q * of_int d" using q dpos by simp
    finally show ?thesis using dpos by simp
  qed
  show ?thesis
    using upper lower
    by (auto simp: ilog2_def nd bn_def bd_def Let_def not_le algebra_simps)
qed

lemma round_half_even_close: "\<bar>of_int (round_half_even x) - x\<bar> \<le> 1 / 2"
proof -
  have "of_int \<lfloor>x\<rfloor> \<le> x" "x < of_int \<lfloor>x\<rfloor> + 1"
    by linarith+
  then show ?thesis
    by (auto simp: round_half_even_def Let_def abs_le_iff)
qed

lemma round_pos_nearest:
  assumes "0 < q" and "round_pos q = Finite r"
  shows "\<exists>m. r = of_int m * pow2 (max (ilog2 q) (- 1022) - 52)
           \<and> \<bar>r - q\<bar> \<le> pow2 (max (ilog2 q) (- 1022) - 52) / 2"
proof -
  define u where "u = pow2 (max (ilog2 q) (- 1022) - 52)"
  define m where "m = round_half_even (q / u)"
  have u: "0 < u" by (simp add: u_def pow2_pos)
  have r: "r = of_int m * u"
    using assms(2) by (simp add: round_pos_def Let_def u_def m_def split: if_splits)
  have "\<bar>of_int m - q / u\<bar> \<le> 1 / 2"
    unfolding m_def by (rule round_half_even_close)
  then have "\<bar>of_int m - q / u\<bar> * u \<le> 1 / 2 * u"
    using u by (simp add: mult_right_mono)
  moreover have "\<bar>of_int m - q / u\<bar> * u = \<bar>of_int m * u - q\<bar>"
  proof -
    have "\<bar>of_int m - q / u\<bar> * u = \<bar>of_int m - q / u\<bar> * \<bar>u\<bar>"
      using u by simp
    also have "\<dots> = \<bar>(of_int m - q / u) * u\<bar>"
      by (simp only: abs_mult)
    also have "(of_int m - q / u) * u = of_int m * u - q"
      using u by (simp add: left_diff_distrib)
    finally show ?thesis .
  qed
  ultimately have "\<bar>r - q\<bar> \<le> u / 2"
    by (simp add: r)
  with r show ?thesis
    unfolding u_def by blast
qed

text \<open>The four factors of \<^verbatim>\<open>multipliers\<close> are the floats that the literals denote.\<close>

lemma round_double_factors:
  "round_double 1000000000000 = Finite 1000000000000"
  "round_double 1000000000 = Finite 1000000000"
  "round_double 1000000 = Finite 1000000"
  "round_double 1000 = Finite 1000"
  by code_simp+

lemma multipliers_literals:
  "map (\<lambda>(suffix, mul). Some mul) multipliers = map py_float [''1e12'', ''1e9'', ''1e6'', ''1e3'']"
  by (simp add: multipliers_def py_float_def float_number_def builtin_strip_def
      builtin_isspace_def split_sign_def digits_val_def is_digit_def digit_val_def lower_def lower_char_def
      pow10_def Let_def round_double_factors)

subsection \<open>Evaluating the parsers\<close>

lemmas str_eval = strip_def builtin_strip_def builtin_isspace_def replace_del_def isspace_def
  split_sign_def digits_val_def
  is_digit_def digit_val_def lower_def lower_char_def pow10_def Let_def

lemma endswith_single: "endswith s [x] = (s \<noteq> [] \<and> last s = x)"
  by (cases s rule: rev_cases) (simp_all add: endswith_def)

lemma replace_del_twice:
  "replace_del (CHR '','') (replace_del (CHR ''$'') s)
     = filter (\<lambda>c. c \<noteq> CHR ''$'' \<and> c \<noteq> CHR '','') s"
  by (simp add: replace_del_def conj_commute)

lemma suffix_loop_multipliers:
  "suffix_loop multipliers c =
     (case (if c = [] then None else spec_suffix_factor (last c)) of
        Some f \<Rightarrow> (case py_float (butlast c) of None \<Rightarrow> None | Some x \<Rightarrow> Some (fmul x f))
      | None \<Rightarrow> py_float c)"
  by (simp add: multipliers_def endswith_single spec_suffix_factor_def)

lemma parse_market_cap_refines: "parse_market_cap s = spec_market_cap_parse s"
  by (simp add: parse_market_cap_def spec_market_cap_parse_def spec_clean_def
      replace_del_twice suffix_loop_multipliers Let_def)

lemma parse_number_refines: "parse_number s = spec_numeric_parse s"
  by (simp add: parse_number_def spec_numeric_parse_def spec_clean_def replace_del_twice)

lemma parse_int_refines: "parse_int s = spec_integer_parse s"
  by (simp add: parse_int_def spec_integer_parse_def replace_del_def)

lemma float_number_1_2: "float_number ''1.2'' = Some (6 / 5)"
  by (simp add: float_number_def str_eval)

lemma float_number_500: "float_number ''500'' = Some 500"
  by (simp add: float_number_def str_eval)

lemma float_number_12_34: "float_number ''12.34'' = Some (617 / 50)"
  by (simp add: float_number_def str_eval)

lemma float_number_1_2e12: "float_number ''1.2e12'' = Some 1200000000000"
  by (simp add: float_number_def str_eval)

lemma float_number_5e8: "float_number ''5e8'' = Some 500000000"
  by (simp add: float_number_def str_eval)

lemma round_6_5: "round_double (6 / 5) = Finite (5404319552844595 / 2 ^ 52)"
  by code_simp

lemma round_500: "round_double 500 = Finite 500"
  by code_simp

lemma round_12_34: "round_double (617 / 50) = Finite (3473401212609495 / 2 ^ 48)"
  by code_simp

lemma round_1_2e12: "round_double 1200000000000 = Finite 1200000000000"
  by code_simp

lemma round_5e8: "round_double 500000000 = Finite 500000000"
  by code_simp

lemma fmul_1_2_T:
  "fmul (Finite (5404319552844595 / 4503599627370496)) (Finite 1000000000000)
     = Finite 1200000000000"
  by code_simp

lemma fmul_500_M: "fmul (Finite 500) (Finite 1000000) = Finite 500000000"
  by code_simp

lemma py_float_1_2: "py_float ''1.2'' = Some (Finite (5404319552844595 / 2 ^ 52))"
  by (simp add: py_float_def str_eval float_number_1_2 round_6_5)

lemma py_float_500: "py_float ''500'' = Some (Finite 500)"
  by (simp add: py_float_def str_eval float_number_500 round_500)

lemma py_float_12_34: "py_float ''12.34'' = Some (Finite (3473401212609495 / 2 ^ 48))"
  by (simp add: py_float_def str_eval float_number_12_34 round_12_34)

lemma py_float_1_2e12: "py_float ''1.2e12'' = Some (Finite 1200000000000)"
  by (simp add: py_float_def str_eval float_number_1_2e12 round_1_2e12)

lemma py_float_5e8: "py_float ''5e8'' = Some (Finite 500000000)"
  by (simp add: py_float_def str_eval float_number_5e8 round_5e8)

lemma spec_clean_1_2T: "spec_clean ''$1.2T'' = ''1.2T''"
  by (simp add: spec_clean_def str_eval)

lemma spec_clean_500M: "spec_clean ''$500M'' = ''500M''"
  by (simp add: spec_clean_def str_eval)

lemma spec_clean_12_34: "spec_clean ''$12.34'' = ''12.34''"
  by (simp add: spec_clean_def str_eval)

lemma parse_market_cap_1_2T: "parse_market_cap ''$1.2T'' = Some (Finite 1200000000000)"
  by (simp add: parse_market_cap_refines spec_market_cap_parse_def spec_clean_1_2T
      spec_suffix_factor_def py_float_1_2 fmul_1_2_T)

lemma parse_market_cap_500M: "parse_market_cap ''$500M'' = Some (Finite 500000000)"
  by (simp add: parse_market_cap_refines spec_market_cap_parse_def spec_clean_500M
      spec_suffix_factor_def py_float_500 fmul_500_M)

lemma parse_number_12_34: "parse_number ''$12.34'' = Some (Finite (3473401212609495 / 2 ^ 48))"
  by (simp add: parse_number_refines spec_numeric_parse_def spec_clean_12_34 py_float_12_34)

lemma parse_int_1234567: "parse_int ''1,234,567'' = Some 1234567"
  by (simp add: parse_int_def py_int_def str_eval)

subsection \<open>Whitespace: \<^verbatim>\<open>str.strip()\<close> and the builtins\<close>

text \<open>The builtins skip fewer characters than \<^verbatim>\<open>str.strip()\<close> removes, so on a stripped string
  their own skipping does nothing: behind \<^verbatim>\<open>parse_number\<close> and \<^verbatim>\<open>parse_int\<close> the two sets never
  differ. \<^verbatim>\<open>parse_market_cap\<close> passes \<^verbatim>\<open>float\<close> the string without its suffix, which may end in
  whitespace again; there they do.\<close>

lemma builtin_isspace_isspace: "builtin_isspace c \<Longrightarrow> isspace c"
  by (auto simp: builtin_isspace_def isspace_def)

lemma strip_first: "strip s \<noteq> [] \<Longrightarrow> \<not> isspace (hd (strip s))"
proof -
  assume ne: "strip s \<noteq> []"
  let ?t = "dropWhile isspace s"
  have "rev ?t = takeWhile isspace (rev ?t) @ dropWhile isspace (rev ?t)"
    by simp
  then have "?t = strip s @ rev (takeWhile isspace (rev ?t))"
    by (metis rev_append rev_rev_ident strip_def)
  with ne have "hd ?t = hd (strip s)" "?t \<noteq> []"
    by (metis hd_append2, metis append_is_Nil_conv)
  then show ?thesis
    using hd_dropWhile [of isspace s] by simp
qed

lemma strip_last: "strip s \<noteq> [] \<Longrightarrow> \<not> isspace (last (strip s))"
proof -
  assume ne: "strip s \<noteq> []"
  let ?u = "dropWhile isspace (rev (dropWhile isspace s))"
  have "?u \<noteq> []" using ne by (simp add: strip_def)
  then have "\<not> isspace (hd ?u)" by (rule hd_dropWhile)
  moreover have "last (strip s) = hd ?u"
    using \<open>?u \<noteq> []\<close> by (simp add: strip_def last_rev)
  ultimately show ?thesis by simp
qed

lemma dropWhile_id: "xs \<noteq> [] \<Longrightarrow> \<not> P (hd xs) \<Longrightarrow> dropWhile P xs = xs"
  by (cases xs) auto

lemma builtin_strip_strip: "builtin_strip (strip s) = strip s"
proof (cases "strip s = []")
  case True
  then show ?thesis by (simp add: builtin_strip_def)
next
  case False
  have h: "\<not> builtin_isspace (hd (strip s))" and l: "\<not> builtin_isspace (last (strip s))"
    using strip_first [OF False] strip_last [OF False] builtin_isspace_isspace by blast+
  have d1: "dropWhile builtin_isspace (strip s) = strip s"
    using False h by (rule dropWhile_id)
  have "rev (strip s) \<noteq> []" "\<not> builtin_isspace (hd (rev (strip s)))"
    using False l by (simp_all add: hd_rev)
  then have d2: "dropWhile builtin_isspace (rev (strip s)) = rev (strip s)"
    by (rule dropWhile_id)
  show ?thesis
    by (simp add: builtin_strip_def d1 d2)
qed

text \<open>Whitespace before the suffix, a separator before the suffix, separators around the
  string, and a product that rounds.\<close>

lemma spec_clean_sep: "spec_clean (''1.2'' @ [CHR 0x1C] @ ''T'') = ''1.2'' @ [CHR 0x1C] @ ''T''"
  by (simp add: spec_clean_def str_eval)

lemma py_float_sep: "py_float (''1.2'' @ [CHR 0x1C]) = None"
  by (simp add: py_float_def float_number_def str_eval)

lemma parse_market_cap_sep: "parse_market_cap (''1.2'' @ [CHR 0x1C] @ ''T'') = None"
  using spec_clean_sep py_float_sep
  by (simp add: parse_market_cap_refines spec_market_cap_parse_def spec_suffix_factor_def)

lemma spec_clean_spaces: "spec_clean '' $ 1.2 T'' = ''1.2 T''"
  by (simp add: spec_clean_def str_eval)

lemma py_float_1_2_space: "py_float ''1.2 '' = Some (Finite (5404319552844595 / 2 ^ 52))"
  by (simp add: py_float_def str_eval float_number_1_2 round_6_5)

lemma parse_market_cap_spaces: "parse_market_cap '' $ 1.2 T'' = Some (Finite 1200000000000)"
  by (simp add: parse_market_cap_refines spec_market_cap_parse_def spec_clean_spaces
      spec_suffix_factor_def py_float_1_2_space fmul_1_2_T)

lemma spec_clean_sep_around: "spec_clean ([CHR 0x1C] @ ''1.2T'' @ [CHR 0x1C]) = ''1.2T''"
  by (simp add: spec_clean_def str_eval)

lemma parse_market_cap_sep_around:
  "parse_market_cap ([CHR 0x1C] @ ''1.2T'' @ [CHR 0x1C]) = Some (Finite 1200000000000)"
  using spec_clean_sep_around
  by (simp add: parse_market_cap_refines spec_market_cap_parse_def
      spec_suffix_factor_def py_float_1_2 fmul_1_2_T)

lemma float_number_1_005: "float_number ''1.005'' = Some (201 / 200)"
  by (simp add: float_number_def str_eval)

lemma round_1_005: "round_double (201 / 200) = Finite (1131529406376837 / 1125899906842624)"
  by code_simp

lemma fmul_1_005_K:
  "fmul (Finite (1131529406376837 / 1125899906842624)) (Finite 1000)
     = Finite (8840073487319039 / 8796093022208)"
  by code_simp

lemma py_float_1_005: "py_float ''1.005'' = Some (Finite (1131529406376837 / 1125899906842624))"
  by (simp add: py_float_def str_eval float_number_1_005 round_1_005)

lemma spec_clean_1_005K: "spec_clean ''1.005K'' = ''1.005K''"
  by (simp add: spec_clean_def str_eval)

lemma parse_market_cap_1_005K:
  "parse_market_cap ''1.005K'' = Some (Finite (8840073487319039 / 8796093022208))"
  by (simp add: parse_market_cap_refines spec_market_cap_parse_def spec_clean_1_005K
      spec_suffix_factor_def py_float_1_005 fmul_1_005_K)

lemma float_number_1004_9: "float_number ''1004.9999999999999'' = Some (10049999999999999 / 10000000000000)"
  by (simp add: float_number_def str_eval)

lemma round_1004_9:
  "round_double (10049999999999999 / 10000000000000) = Finite (8840073487319039 / 8796093022208)"
  by code_simp

lemma py_float_1004_9:
  "py_float ''1004.9999999999999'' = Some (Finite (8840073487319039 / 8796093022208))"
  by (simp add: py_float_def str_eval float_number_1004_9 round_1004_9)

subsection \<open>market-cap-parse\<close>

text \<open>
  Claim C4. \<^verbatim>\<open>parse_market_cap\<close> is the specification's market-cap-parse on every string:
  null on the empty string and on \<^verbatim>\<open>N/A\<close>; otherwise, with \<^verbatim>\<open>$\<close>, \<^verbatim>\<open>,\<close> and the
  surrounding whitespace stripped, the float parse of the prefix times \<open>1e12\<close>, \<open>1e9\<close>,
  \<open>1e6\<close> or \<open>1e3\<close> when the cleaned string ends with T, B, M or K, the float parse of the
  cleaned string otherwise, and null when that parse fails. The float parse is \<^verbatim>\<open>float()\<close>,
  which skips space, tab, LF, VT, FF and CR around the number and raises on anything else.
  On \<^verbatim>\<open>"$1.2T"\<close> the result is the float that the literal \<^verbatim>\<open>1.2e12\<close> denotes (in binary64
  the product of the float nearest to 1.2 and \<open>1e12\<close> rounds to exactly \<open>1200000000000\<close>), on
  \<^verbatim>\<open>"$500M"\<close> the float \<open>5e8\<close>, on \<^verbatim>\<open>"N/A"\<close> and on the empty string null. On
  \<^verbatim>\<open>" $ 1.2 T"\<close> it is \<open>1.2e12\<close> again (the space left before the suffix is skipped by
  \<^verbatim>\<open>float\<close>); on \<^verbatim>\<open>"1.2\x1cT"\<close> it is null (\<^verbatim>\<open>float("1.2\x1c")\<close> raises); on
  \<^verbatim>\<open>"\x1c1.2T\x1c"\<close> it is \<open>1.2e12\<close> (\<^verbatim>\<open>strip\<close> removes the separators); on \<^verbatim>\<open>"1.005K"\<close> it
  is the float \<open>1004.9999999999999\<close>, the rounded product, not 1005.
\<close>

theorem parse_market_cap_meets_spec:
  "parse_market_cap s = spec_market_cap_parse s
   \<and> parse_market_cap ''$1.2T'' = py_float ''1.2e12''
   \<and> parse_market_cap ''$1.2T'' = Some (Finite 1200000000000)
   \<and> parse_market_cap ''$500M'' = py_float ''5e8''
   \<and> parse_market_cap ''$500M'' = Some (Finite 500000000)
   \<and> parse_market_cap ''N/A'' = None
   \<and> parse_market_cap '''' = None
   \<and> parse_market_cap '' $ 1.2 T'' = Some (Finite 1200000000000)
   \<and> parse_market_cap (''1.2'' @ [CHR 0x1C] @ ''T'') = None
   \<and> parse_market_cap ([CHR 0x1C] @ ''1.2T'' @ [CHR 0x1C]) = Some (Finite 1200000000000)
   \<and> parse_market_cap ''1.005K'' = py_float ''1004.9999999999999''
   \<and> parse_market_cap ''1.005K'' = Some (Finite (8840073487319039 / 8796093022208))"
proof -
  have "parse_market_cap ''N/A'' = None" "parse_market_cap '''' = None"
    by (simp_all add: parse_market_cap_def)
  moreover have "parse_market_cap ''$1.2T'' = py_float ''1.2e12''"
    by (simp only: parse_market_cap_1_2T py_float_1_2e12)
  moreover have "parse_market_cap ''$500M'' = py_float ''5e8''"
    by (simp only: parse_market_cap_500M py_float_5e8)
  moreover have "parse_market_cap ''1.005K'' = py_float ''1004.9999999999999''"
    by (simp only: parse_market_cap_1_005K py_float_1004_9)
  moreover note parse_market_cap_refines [of s] parse_market_cap_1_2T parse_market_cap_500M
    parse_market_cap_spaces parse_market_cap_sep parse_market_cap_sep_around
    parse_market_cap_1_005K
  ultimately show ?thesis
    by (intro conjI)
qed

subsection \<open>numeric-parse and integer-parse\<close>

text \<open>
  Claim C9, as stated, has integer-parse strip the character \<^verbatim>\<open>$\<close> as numeric-parse does.
  \<^verbatim>\<open>parse_int\<close> removes commas only, so a string with a dollar sign does not parse: on
  \<^verbatim>\<open>"$5"\<close> it returns null, where the stated rule gives 5.
\<close>

theorem parse_int_keeps_dollar_counterexample:
  "parse_int ''$5'' = None \<and> spec_integer_parse_dollar ''$5'' = Some 5"
  by (simp add: parse_int_def spec_integer_parse_dollar_def spec_clean_def py_int_def str_eval)

text \<open>
  Claim C9, amended. \<^verbatim>\<open>parse_number\<close> and \<^verbatim>\<open>parse_int\<close> return null on the empty string and
  on \<^verbatim>\<open>N/A\<close>. Otherwise \<^verbatim>\<open>parse_number\<close> strips \<^verbatim>\<open>$\<close> and \<^verbatim>\<open>,\<close> characters and the
  surrounding whitespace and parses a float, and \<^verbatim>\<open>parse_int\<close> strips \<^verbatim>\<open>,\<close> characters only
  and the surrounding whitespace and parses an integer; each returns null where the parse
  fails (both are total: nothing is raised). \<^verbatim>\<open>parse_number("$12.34")\<close> is the float
  \<open>12.34\<close>, and \<^verbatim>\<open>parse_int("1,234,567")\<close> is \<open>1234567\<close>.
\<close>

theorem parse_number_parse_int_meet_spec:
  "parse_number s = spec_numeric_parse s
   \<and> parse_int s = spec_integer_parse s
   \<and> parse_number '''' = None \<and> parse_number ''N/A'' = None
   \<and> parse_int '''' = None \<and> parse_int ''N/A'' = None
   \<and> parse_number ''$12.34'' = py_float ''12.34''
   \<and> parse_number ''$12.34'' = Some (Finite (3473401212609495 / 2 ^ 48))
   \<and> parse_int ''1,234,567'' = Some 1234567"
proof -
  have "parse_number '''' = None" "parse_number ''N/A'' = None"
    by (simp_all add: parse_number_def)
  moreover have "parse_int '''' = None" "parse_int ''N/A'' = None"
    by (simp_all add: parse_int_def)
  moreover have "parse_number ''$12.34'' = py_float ''12.34''"
    by (simp only: parse_number_12_34 py_float_12_34)
  ultimately show ?thesis
    using parse_number_refines [of s] parse_int_refines [of s]
      parse_number_12_34 parse_int_1234567
    by simp
qed

subsection \<open>The normalizer\<close>

lemma row_step_retained:
  "row_step st r =
     (if is_us r \<and> trimmed_symbol r \<noteq> [] \<and> trimmed_symbol r \<notin> seen_symbols st
      then st\<lparr>seen_symbols := insert (trimmed_symbol r) (seen_symbols st),
              tickers := tickers st @ [ticker_of r]\<rparr>
      else if is_us r then st\<lparr>duplicate_count := duplicate_count st + 1\<rparr>
      else st\<lparr>non_us_count := non_us_count st + 1\<rparr>)"
  by (auto simp: row_step_def is_us_def trimmed_symbol_def ticker_of_def Let_def)

lemma loop_tickers:
  "tickers (foldl row_step st rows) = tickers st @ map ticker_of (retained (seen_symbols st) rows)"
proof (induction rows arbitrary: st)
  case Nil
  then show ?case by simp
next
  case (Cons r rs)
  show ?case
    by (simp only: foldl_Cons Cons.IH) (simp add: row_step_retained)
qed

lemma fetch_tickers_retained: "fetch_tickers (Some rows) = map ticker_of (retained {} rows)"
  by (cases rows) (simp_all add: fetch_tickers_def loop_tickers del: foldl_Cons)

lemma retained_props:
  "r \<in> set (retained seen rows) \<Longrightarrow>
     r \<in> set rows \<and> is_us r \<and> trimmed_symbol r \<noteq> [] \<and> trimmed_symbol r \<notin> seen"
  by (induction rows arbitrary: seen) (auto split: if_splits)

lemma retained_distinct: "distinct (map trimmed_symbol (retained seen rows))"
proof (induction rows arbitrary: seen)
  case Nil
  then show ?case by simp
next
  case (Cons r rs)
  then show ?case
    by (auto dest: retained_props)
qed

lemma retained_append:
  "retained seen (xs @ ys)
     = retained seen xs @ retained (seen \<union> trimmed_symbol ` set (retained seen xs)) ys"
  by (induction xs arbitrary: seen) auto

lemma retained_drop_non_us:
  "\<not> is_us r \<Longrightarrow> retained seen (xs @ r # ys) = retained seen (xs @ ys)"
  by (simp add: retained_append)

lemma retained_filter_symbol:
  "s \<noteq> [] \<Longrightarrow> s \<notin> seen \<Longrightarrow>
     filter (\<lambda>r. trimmed_symbol r = s) (retained seen rows)
       = (case find (\<lambda>r. is_us r \<and> trimmed_symbol r = s) rows of None \<Rightarrow> [] | Some r \<Rightarrow> [r])"
proof (induction rows arbitrary: seen)
  case Nil
  then show ?case by simp
next
  case (Cons r rs)
  show ?case
  proof (cases "is_us r \<and> trimmed_symbol r = s")
    case True
    have "filter (\<lambda>r. trimmed_symbol r = s) (retained (insert s seen) rs) = []"
      by (auto simp: filter_empty_conv dest: retained_props)
    with True Cons.prems show ?thesis by simp
  next
    case False
    with Cons.prems Cons.IH show ?thesis by auto
  qed
qed

lemma find_Some_holds: "find P xs = Some x \<Longrightarrow> P x"
  by (induction xs) (auto split: if_splits)

lemma symbol_ticker_of [simp]: "symbol (ticker_of r) = trimmed_symbol r"
  by (simp add: ticker_of_def make_ticker_def)

text \<open>
  Claim C7. A row whose \<^verbatim>\<open>country\<close> is not \<^verbatim>\<open>"United States"\<close> (the key may be absent)
  leaves no record in the normalizer's output: with the row taken out of the input, the
  output is the same list, and every record of the output is the one built from a row of
  the input whose country is \<^verbatim>\<open>"United States"\<close>.
\<close>

theorem non_us_rows_leave_no_record:
  assumes "r ''country'' \<noteq> Some ''United States''"
  shows "fetch_tickers (Some (xs @ r # ys)) = fetch_tickers (Some (xs @ ys))
     \<and> (\<forall>t \<in> set (fetch_tickers (Some (xs @ r # ys))).
          \<exists>r' \<in> set (xs @ ys). r' ''country'' = Some ''United States''
             \<and> t = make_ticker (strip (row_get r' ''symbol'' [])) r')"
proof -
  have nus: "\<not> is_us r" using assms by (simp add: is_us_def)
  have eq: "fetch_tickers (Some (xs @ r # ys)) = fetch_tickers (Some (xs @ ys))"
    by (simp only: fetch_tickers_retained retained_drop_non_us [OF nus])
  have "\<exists>r' \<in> set (xs @ ys). r' ''country'' = Some ''United States''
             \<and> t = make_ticker (strip (row_get r' ''symbol'' [])) r'"
    if "t \<in> set (fetch_tickers (Some (xs @ ys)))" for t
  proof -
    from that obtain r' where "r' \<in> set (retained {} (xs @ ys))" "t = ticker_of r'"
      by (auto simp: fetch_tickers_retained)
    then show ?thesis
      using retained_props [of r' "{}" "xs @ ys"]
      by (auto simp: is_us_def ticker_of_def trimmed_symbol_def)
  qed
  with eq show ?thesis by simp
qed

text \<open>Two rows, the second with no \<^verbatim>\<open>country\<close> key: it changes nothing.\<close>

theorem non_us_rows_leave_no_record_witness:
  "fetch_tickers (Some [[''country'' \<mapsto> ''United States'', ''symbol'' \<mapsto> ''AAPL''],
                        [''symbol'' \<mapsto> ''SHOP'']])
     = fetch_tickers (Some [[''country'' \<mapsto> ''United States'', ''symbol'' \<mapsto> ''AAPL'']])"
proof -
  have h: "[''symbol'' \<mapsto> ''SHOP''] ''country'' \<noteq> Some ''United States''"
    by simp
  show ?thesis
    using h non_us_rows_leave_no_record [of "[''symbol'' \<mapsto> ''SHOP'']"
        "[[''country'' \<mapsto> ''United States'', ''symbol'' \<mapsto> ''AAPL'']]" "[]"]
    by simp
qed

text \<open>
  Claim C3. In the normalizer's output the symbols are pairwise distinct and none is
  empty. For every non-empty string \<open>s\<close>, the records of the output with symbol \<open>s\<close> are:
  exactly one, built from the first row of the input that has country
  \<^verbatim>\<open>"United States"\<close> and trimmed symbol \<open>s\<close>, when there is such a row (however many there
  are), and none otherwise. Rows whose trimmed symbol is empty give no record.
\<close>

theorem one_record_per_symbol_first_wins:
  "distinct (map symbol (fetch_tickers (Some rows)))
   \<and> (\<forall>t \<in> set (fetch_tickers (Some rows)). symbol t \<noteq> [])
   \<and> (\<forall>s. s \<noteq> [] \<longrightarrow>
        filter (\<lambda>t. symbol t = s) (fetch_tickers (Some rows))
          = (case find (\<lambda>r. r ''country'' = Some ''United States''
                           \<and> strip (row_get r ''symbol'' []) = s) rows of
               None \<Rightarrow> [] | Some r \<Rightarrow> [make_ticker s r]))"
proof (intro conjI allI impI ballI)
  have "map symbol (map ticker_of (retained {} rows)) = map trimmed_symbol (retained {} rows)"
    by simp
  then show "distinct (map symbol (fetch_tickers (Some rows)))"
    by (simp only: fetch_tickers_retained retained_distinct)
next
  fix t assume "t \<in> set (fetch_tickers (Some rows))"
  then show "symbol t \<noteq> []"
    by (auto simp: fetch_tickers_retained dest: retained_props)
next
  fix s :: string assume s: "s \<noteq> []"
  have "filter (\<lambda>t. symbol t = s) (fetch_tickers (Some rows))
      = map ticker_of (filter (\<lambda>r. trimmed_symbol r = s) (retained {} rows))"
    by (simp add: fetch_tickers_retained filter_map o_def)
  also have "\<dots> = (case find (\<lambda>r. is_us r \<and> trimmed_symbol r = s) rows of
               None \<Rightarrow> [] | Some r \<Rightarrow> [ticker_of r])"
    using s by (simp add: retained_filter_symbol split: option.splits)
  also have "\<dots> = (case find (\<lambda>r. is_us r \<and> trimmed_symbol r = s) rows of
               None \<Rightarrow> [] | Some r \<Rightarrow> [make_ticker s r])"
    by (auto split: option.splits simp: ticker_of_def dest: find_Some_holds)
  finally show "filter (\<lambda>t. symbol t = s) (fetch_tickers (Some rows))
          = (case find (\<lambda>r. r ''country'' = Some ''United States''
                           \<and> strip (row_get r ''symbol'' []) = s) rows of
               None \<Rightarrow> [] | Some r \<Rightarrow> [make_ticker s r])"
    by (simp add: is_us_def trimmed_symbol_def)
qed

text \<open>Four rows: AAPL, a row of another country with the same symbol, AAPL again with
  spaces around the symbol and another name, and a row with a blank symbol. The one record
  with symbol AAPL is built from the first row.\<close>

theorem one_record_per_symbol_first_wins_witness:
  "filter (\<lambda>t. symbol t = ''AAPL'')
     (fetch_tickers (Some
        [[''country'' \<mapsto> ''United States'', ''symbol'' \<mapsto> ''AAPL'', ''name'' \<mapsto> ''Apple''],
         [''country'' \<mapsto> ''Canada'', ''symbol'' \<mapsto> ''AAPL'', ''name'' \<mapsto> ''Maple''],
         [''country'' \<mapsto> ''United States'', ''symbol'' \<mapsto> '' AAPL '', ''name'' \<mapsto> ''Again''],
         [''country'' \<mapsto> ''United States'', ''symbol'' \<mapsto> ''  '']]))
   = [make_ticker ''AAPL''
        [''country'' \<mapsto> ''United States'', ''symbol'' \<mapsto> ''AAPL'', ''name'' \<mapsto> ''Apple'']]"
proof -
  have ne: "''AAPL'' \<noteq> []"
    by simp
  show ?thesis
    using one_record_per_symbol_first_wins [of
        "[[''country'' \<mapsto> ''United States'', ''symbol'' \<mapsto> ''AAPL'', ''name'' \<mapsto> ''Apple''],
          [''country'' \<mapsto> ''Canada'', ''symbol'' \<mapsto> ''AAPL'', ''name'' \<mapsto> ''Maple''],
          [''country'' \<mapsto> ''United States'', ''symbol'' \<mapsto> '' AAPL '', ''name'' \<mapsto> ''Again''],
          [''country'' \<mapsto> ''United States'', ''symbol'' \<mapsto> ''  '']]"] ne
    by (simp add: row_get_def strip_def isspace_def)
qed

subsection \<open>The sort contract\<close>

lemma fle_total: "x \<noteq> NaN \<Longrightarrow> y \<noteq> NaN \<Longrightarrow> fle x y \<or> fle y x"
  by (cases x; cases y) auto

lemma fle_trans: "fle x y \<Longrightarrow> fle y z \<Longrightarrow> fle x z"
  by (cases x; cases y; cases z) auto

lemma fle_not_NaN: "fle x y \<Longrightarrow> x \<noteq> NaN \<and> y \<noteq> NaN"
  by (cases x; cases y) auto

lemma cap_before_total: "cap_before a b \<or> cap_before b a"
  using fle_total [of "the (marketCap a)" "the (marketCap b)"]
  by (auto simp: cap_before_def split: option.splits)

lemma cap_before_trans: "cap_before a b \<Longrightarrow> cap_before b c \<Longrightarrow> cap_before a c"
  by (auto simp: cap_before_def split: option.splits if_splits dest: fle_trans fle_not_NaN)

lemma cap_before_isna: "cap_before a b \<Longrightarrow> isna (marketCap a) \<Longrightarrow> isna (marketCap b)"
  by (auto simp: cap_before_def isna_def split: option.splits if_splits dest: fle_not_NaN)

lemma mset_insert_desc: "mset (insert_desc t us) = add_mset t (mset us)"
  by (induction us) auto

lemma set_insert_desc: "set (insert_desc t us) = insert t (set us)"
  by (induction us) auto

lemma sorted_insert_desc:
  "sorted_wrt cap_before us \<Longrightarrow> sorted_wrt cap_before (insert_desc t us)"
proof (induction us)
  case Nil
  then show ?case by simp
next
  case (Cons u us)
  show ?case
  proof (cases "cap_before t u")
    case True
    then have "\<forall>v \<in> set us. cap_before t v"
      using Cons.prems by (auto intro: cap_before_trans)
    with True Cons.prems show ?thesis by simp
  next
    case False
    then have "cap_before u t" using cap_before_total [of u t] by simp
    with False Cons show ?thesis by (auto simp: set_insert_desc)
  qed
qed

lemma insertion_sort_values_ok: "sort_values_ok insertion_sort_values"
proof -
  have "mset (foldr insert_desc xs []) = mset xs
        \<and> sorted_wrt cap_before (foldr insert_desc xs [])" for xs
    by (induction xs) (simp_all add: mset_insert_desc sorted_insert_desc)
  then show ?thesis
    by (simp add: sort_values_ok_def insertion_sort_values_def)
qed

lemma sort_values_ok_rev: "sort_values_ok (\<lambda>xs. insertion_sort_values (rev xs))"
  using insertion_sort_values_ok by (simp add: sort_values_ok_def)

text \<open>
  The contract does not fix the order of rows with equal keys: the insertion sort keeps
  the input order of two rows with the same market capitalisation, the same sort run on
  the reversed input meets the contract as well and swaps them.
\<close>

lemma tie_order_open:
  "insertion_sort_values [ex_tech, ex_tie] = [ex_tech, ex_tie]
   \<and> insertion_sort_values (rev [ex_tech, ex_tie]) = [ex_tie, ex_tech]"
  by (simp add: insertion_sort_values_def cap_before_def ex_tech_def ex_tie_def)

subsection \<open>The files after the writer has run\<close>

lemmas chr_eval = char_of_def bit_Suc_0_iff

lemma top_path_50: "top_path 50 = ''tickers/top_50.csv''"
  by (simp add: top_path_def chr_eval)

lemma top_path_100: "top_path 100 = ''tickers/top_100.csv''"
  by (simp add: top_path_def chr_eval)

lemma top_path_200: "top_path 200 = ''tickers/top_200.csv''"
  by (simp add: top_path_def chr_eval)

lemma industry_path_not_tickers:
  "industry_path x \<noteq> ''tickers/all.csv''" "industry_path x \<noteq> ''tickers/top_50.csv''"
  "industry_path x \<noteq> ''tickers/top_100.csv''" "industry_path x \<noteq> ''tickers/top_200.csv''"
  by (simp_all add: industry_path_def)

lemma industry_path_inj: "industry_path x = industry_path y \<longleftrightarrow> x = y"
  by (simp add: industry_path_def)

lemma set_unique: "set (unique xs) = set xs"
  by (simp add: unique_def)

lemma distinct_unique: "distinct (unique xs)"
  by (simp add: unique_def)

lemma set_industries_of:
  "set (industries_of df) = {i \<in> industry ` set df. strip i \<noteq> []}"
  by (auto simp: industries_of_def set_unique strip_def)

lemma sorted_industries_of: "sorted (industries_of df)"
  by (simp add: industries_of_def)

lemma files_to_csv: "files (to_csv df p fs) = (files fs)(p \<mapsto> df)"
  by (simp add: to_csv_def)

lemma files_makedirs: "files (makedirs d fs) = files fs"
  by (simp add: makedirs_def)

lemma files_write_industry:
  "ind \<in> industry ` set df \<Longrightarrow>
     files (write_industry df fs ind)
       = (files fs)(industry_path (safe_name ind) \<mapsto> filter (\<lambda>t. industry t = ind) df)"
  by (auto simp: write_industry_def files_to_csv Let_def filter_empty_conv)

lemma files_industry_loop:
  "set inds \<subseteq> industry ` set df \<Longrightarrow>
     files (foldl (write_industry df) fs inds) p
       = (case find (\<lambda>i. industry_path (safe_name i) = p) (rev inds) of
            None \<Rightarrow> files fs p
          | Some i \<Rightarrow> Some (filter (\<lambda>t. industry t = i) df))"
proof (induction inds rule: rev_induct)
  case Nil
  then show ?case by simp
next
  case (snoc x xs)
  then show ?case
    by (simp add: files_write_industry)
qed

lemma find_rev_sorted:
  "sorted xs \<Longrightarrow> find P (rev xs) = Some k \<Longrightarrow>
     P k \<and> k \<in> set xs \<and> (\<forall>j \<in> set xs. P j \<longrightarrow> j \<le> k)"
proof (induction xs rule: rev_induct)
  case Nil
  then show ?case by simp
next
  case (snoc x xs)
  then show ?case
    by (auto simp: sorted_append split: if_splits)
qed

lemma save_files_files:
  assumes "tks \<noteq> []"
  shows "files (snd (save_files srt tks fs)) p
     = (case find (\<lambda>i. industry_path (safe_name i) = p) (rev (industries_of (srt tks))) of
          Some i \<Rightarrow> Some (filter (\<lambda>t. industry t = i) (srt tks))
        | None \<Rightarrow>
            if p = ''tickers/top_200.csv'' then Some (take 200 (srt tks))
            else if p = ''tickers/top_100.csv'' then Some (take 100 (srt tks))
            else if p = ''tickers/top_50.csv'' then Some (take 50 (srt tks))
            else if p = ''tickers/all.csv'' then Some (srt tks)
            else files fs p)"
proof -
  have sub: "set (industries_of (srt tks)) \<subseteq> industry ` set (srt tks)"
    by (auto simp: set_industries_of)
  show ?thesis
    using assms
    by (simp add: save_files_def Let_def files_industry_loop [OF sub] files_to_csv
        files_makedirs top_path_50 top_path_100 top_path_200 split: option.splits)
qed

lemma save_files_ok: "tks \<noteq> [] \<Longrightarrow> fst (save_files srt tks fs) = True"
  by (simp add: save_files_def Let_def)

lemma sort_values_set: "sort_values_ok srt \<Longrightarrow> set (srt xs) = set xs"
  by (metis sort_values_ok_def set_mset_mset)

lemma sort_values_length: "sort_values_ok srt \<Longrightarrow> length (srt xs) = length xs"
  by (metis sort_values_ok_def size_mset)

lemma sorted_nulls_last: "sorted_wrt cap_before rows \<Longrightarrow> nulls_last rows"
  by (auto simp: nulls_last_def sorted_wrt_iff_nth_less intro: cap_before_isna)

lemma spec_collapse_space:
  "isspace c \<Longrightarrow> spec_collapse (c # cs) = CHR ''_'' # spec_collapse (dropWhile isspace cs)"
  by (induction cs arbitrary: c) auto

lemma spec_collapse_other: "\<not> isspace c \<Longrightarrow> spec_collapse (c # cs) = c # spec_collapse cs"
  by (cases cs) auto

lemma sub_ws_spec: "sub_ws s = spec_collapse s"
  by (induction s rule: sub_ws.induct) (simp_all add: spec_collapse_space spec_collapse_other)

lemma safe_name_spec: "safe_name ind = spec_sanitize ind"
  by (simp add: safe_name_def spec_sanitize_def sub_ws_spec is_word_def is_alnum_def lower_def
      disj_ac)

lemmas name_eval = safe_name_def lower_def lower_char_def strip_def isspace_def is_word_def
  is_digit_def chr_eval

lemma safe_name_tech: "safe_name ''Tech'' = ''tech''" "safe_name ''Tech.'' = ''tech''"
  by (simp_all add: name_eval)

lemma safe_name_consumer: "safe_name ''Consumer Discretionary'' = ''consumer_discretionary''"
  by (simp add: name_eval)

lemma strip_tech: "strip ''Tech'' = ''Tech''" "strip ''Tech.'' = ''Tech.''"
  by (simp_all add: strip_def isspace_def)

lemma partition_file_content:
  assumes ok: "sort_values_ok srt" and ne: "tks \<noteq> []"
    and i: "i \<in> industry ` set tks" "strip i \<noteq> []"
  shows "\<exists>k. k \<in> industry ` set tks \<and> strip k \<noteq> [] \<and> safe_name k = safe_name i \<and> i \<le> k
          \<and> (\<forall>j \<in> industry ` set tks. strip j \<noteq> [] \<and> safe_name j = safe_name i \<longrightarrow> j \<le> k)
          \<and> files (snd (save_files srt tks fs)) (industry_path (safe_name i))
              = Some (filter (\<lambda>t. industry t = k) (srt tks))"
proof -
  let ?inds = "industries_of (srt tks)"
  let ?P = "\<lambda>j. industry_path (safe_name j) = industry_path (safe_name i)"
  have inds: "set ?inds = {j \<in> industry ` set tks. strip j \<noteq> []}"
    by (simp add: set_industries_of sort_values_set [OF ok])
  then have "i \<in> set (rev ?inds)" using i by simp
  then have "find ?P (rev ?inds) \<noteq> None"
    by (auto simp: find_None_iff)
  then obtain k where k: "find ?P (rev ?inds) = Some k" by blast
  from find_rev_sorted [OF sorted_industries_of k]
  have pk: "?P k" "k \<in> set ?inds" "\<forall>j \<in> set ?inds. ?P j \<longrightarrow> j \<le> k"
    by blast+
  have "files (snd (save_files srt tks fs)) (industry_path (safe_name i))
              = Some (filter (\<lambda>t. industry t = k) (srt tks))"
    by (simp add: save_files_files [OF ne] k)
  moreover have "i \<le> k" using pk(3) i inds by blast
  ultimately show ?thesis
    using pk inds by (auto simp: industry_path_inj)
qed

lemma files_outside_output_paths:
  assumes ok: "sort_values_ok srt" and ne: "tks \<noteq> []" and p: "p \<notin> output_paths tks"
  shows "files (snd (save_files srt tks fs)) p = files fs p"
proof -
  have "set (industries_of (srt tks)) = {j \<in> industry ` set tks. strip j \<noteq> []}"
    by (simp add: set_industries_of sort_values_set [OF ok])
  with p have "find (\<lambda>i. industry_path (safe_name i) = p) (rev (industries_of (srt tks))) = None"
    by (auto simp: find_None_iff output_paths_def)
  with p show ?thesis
    by (simp add: save_files_files [OF ne] output_paths_def)
qed

lemma tickers_file_content:
  assumes ne: "tks \<noteq> []"
  shows "files (snd (save_files srt tks fs)) ''tickers/all.csv'' = Some (srt tks)"
    and "files (snd (save_files srt tks fs)) ''tickers/top_50.csv'' = Some (take 50 (srt tks))"
    and "files (snd (save_files srt tks fs)) ''tickers/top_100.csv'' = Some (take 100 (srt tks))"
    and "files (snd (save_files srt tks fs)) ''tickers/top_200.csv'' = Some (take 200 (srt tks))"
proof -
  have none: "find (\<lambda>i. False) xs = None" for xs :: "string list"
    by (induction xs) simp_all
  show "files (snd (save_files srt tks fs)) ''tickers/all.csv'' = Some (srt tks)"
    by (simp add: save_files_files [OF ne] none industry_path_not_tickers)
  show "files (snd (save_files srt tks fs)) ''tickers/top_50.csv'' = Some (take 50 (srt tks))"
    by (simp add: save_files_files [OF ne] none industry_path_not_tickers)
  show "files (snd (save_files srt tks fs)) ''tickers/top_100.csv'' = Some (take 100 (srt tks))"
    by (simp add: save_files_files [OF ne] none industry_path_not_tickers)
  show "files (snd (save_files srt tks fs)) ''tickers/top_200.csv'' = Some (take 200 (srt tks))"
    by (simp add: save_files_files [OF ne] none industry_path_not_tickers)
qed

lemma sort_ex_tech: "insertion_sort_values [ex_tech, ex_tech_dot] = [ex_tech, ex_tech_dot]"
  by (simp add: insertion_sort_values_def cap_before_def ex_tech_def ex_tech_dot_def)

lemma sort_ex_null: "insertion_sort_values [ex_null, ex_tech] = [ex_tech, ex_null]"
  by (simp add: insertion_sort_values_def cap_before_def ex_tech_def ex_null_def)

lemma ex_industry:
  "industry ex_tech = ''Tech''" "industry ex_tech_dot = ''Tech.''" "industry ex_null = ''Tech''"
  by (simp_all add: ex_tech_def ex_tech_dot_def ex_null_def)

lemma industries_ex_tech: "industries_of [ex_tech, ex_tech_dot] = [''Tech'', ''Tech.'']"
  by (simp add: industries_of_def unique_def ex_industry strip_tech)

text \<open>On the records of \<^verbatim>\<open>Tech\<close> and \<^verbatim>\<open>Tech.\<close> the contract leaves the sort no choice.\<close>

lemma mset_two_cases:
  assumes "mset ys = mset [a, b]"
  shows "ys = [a, b] \<or> ys = [b, a]"
proof -
  have "length ys = 2"
    using assms by (metis length_Cons list.size(3) size_mset numeral_2_eq_2)
  then obtain y1 y2 where ys: "ys = [y1, y2]"
    by (cases ys; cases "tl ys") auto
  with assms show ?thesis
    by (auto simp: add_eq_conv_ex)
qed

lemma sort_values_forced:
  assumes "sort_values_ok srt"
  shows "srt [ex_tech, ex_tech_dot] = [ex_tech, ex_tech_dot]"
proof -
  have m: "mset (srt [ex_tech, ex_tech_dot]) = mset [ex_tech, ex_tech_dot]"
    and s: "sorted_wrt cap_before (srt [ex_tech, ex_tech_dot])"
    using assms by (simp_all add: sort_values_ok_def)
  have "\<not> cap_before ex_tech_dot ex_tech"
    by (simp add: cap_before_def ex_tech_def ex_tech_dot_def)
  with s mset_two_cases [OF m] show ?thesis
    by auto
qed

subsection \<open>The full listing and the top-N files\<close>

text \<open>
  Claim C5. For a non-empty list of records and a sort that meets the contract, the
  writer succeeds; \<^verbatim>\<open>tickers/all.csv\<close> holds the sorted list, which has exactly the records
  of the input, each as often as the input has it (once, for the normalizer's output), in
  descending order of market capitalisation; \<^verbatim>\<open>top_50\<close>, \<^verbatim>\<open>top_100\<close> and \<^verbatim>\<open>top_200\<close> hold
  the first 50, 100 and 200 rows of that same sorted list, fewer when the input has fewer:
  \<open>min n (length tks)\<close> rows, with no padding.
\<close>

theorem listing_and_top_files:
  assumes "sort_values_ok srt" and "tks \<noteq> []"
  shows "fst (save_files srt tks fs) = True
    \<and> files (snd (save_files srt tks fs)) ''tickers/all.csv'' = Some (srt tks)
    \<and> mset (srt tks) = mset tks
    \<and> sorted_wrt cap_before (srt tks)
    \<and> files (snd (save_files srt tks fs)) ''tickers/top_50.csv'' = Some (take 50 (srt tks))
    \<and> files (snd (save_files srt tks fs)) ''tickers/top_100.csv'' = Some (take 100 (srt tks))
    \<and> files (snd (save_files srt tks fs)) ''tickers/top_200.csv'' = Some (take 200 (srt tks))
    \<and> length (take 50 (srt tks)) = min 50 (length tks)
    \<and> length (take 100 (srt tks)) = min 100 (length tks)
    \<and> length (take 200 (srt tks)) = min 200 (length tks)"
  using assms
  by (simp add: save_files_ok tickers_file_content sort_values_length min.commute)
     (simp add: sort_values_ok_def)

text \<open>
  Two records, one without a market capitalisation: both files hold the two rows, the
  record with a value first.
\<close>

theorem listing_and_top_files_witness:
  "files (snd (save_files insertion_sort_values [ex_null, ex_tech] empty_fs)) ''tickers/all.csv''
     = Some [ex_tech, ex_null]
   \<and> files (snd (save_files insertion_sort_values [ex_null, ex_tech] empty_fs)) ''tickers/top_50.csv''
     = Some [ex_tech, ex_null]"
proof -
  have ne: "[ex_null, ex_tech] \<noteq> []"
    by simp
  show ?thesis
    using listing_and_top_files [OF insertion_sort_values_ok ne, of empty_fs]
    by (simp add: sort_ex_null)
qed

subsection \<open>Missing market capitalisations come last\<close>

text \<open>
  Claim C2. A record's market capitalisation is null when the data frame holds a missing
  value for it (\<^verbatim>\<open>None\<close> or NaN, which pandas does not tell apart). For a non-empty input
  and a sort that meets the contract (descending, missing values last: the default
  \<^verbatim>\<open>na_position\<close>), every file the writer writes (the full listing, each top-N file and each
  industry partition) has all its rows with a null market capitalisation after all its rows
  with a value; every other path is left as it was.
\<close>

theorem nulls_last_in_every_output:
  assumes "sort_values_ok srt" and "tks \<noteq> []"
  shows "(\<forall>p \<in> output_paths tks.
            \<exists>rows. files (snd (save_files srt tks fs)) p = Some rows \<and> nulls_last rows)
       \<and> (\<forall>p. p \<notin> output_paths tks \<longrightarrow> files (snd (save_files srt tks fs)) p = files fs p)"
proof (intro conjI ballI allI impI)
  fix p assume "p \<notin> output_paths tks"
  then show "files (snd (save_files srt tks fs)) p = files fs p"
    by (rule files_outside_output_paths [OF assms])
next
  fix p assume p: "p \<in> output_paths tks"
  have srt: "sorted_wrt cap_before (srt tks)"
    using assms(1) by (simp add: sort_values_ok_def)
  have nl: "nulls_last (srt tks)" "nulls_last (take n (srt tks))"
    "nulls_last (filter q (srt tks))" for n q
    using srt by (simp_all add: sorted_nulls_last sorted_wrt_take sorted_wrt_filter)
  from p consider "p \<in> {''tickers/all.csv'', ''tickers/top_50.csv'', ''tickers/top_100.csv'',
       ''tickers/top_200.csv''}"
    | i where "i \<in> industry ` set tks" "strip i \<noteq> []" "p = industry_path (safe_name i)"
    by (auto simp: output_paths_def)
  then show "\<exists>rows. files (snd (save_files srt tks fs)) p = Some rows \<and> nulls_last rows"
  proof cases
    case 1
    then show ?thesis
      using tickers_file_content [OF assms(2), of srt fs] nl by auto
  next
    case 2
    then show ?thesis
      using partition_file_content [OF assms 2(1) 2(2), of fs] nl by auto
  qed
qed

text \<open>
  The full listing for a record without a market capitalisation followed by one with.
\<close>

theorem nulls_last_in_every_output_witness:
  "files (snd (save_files insertion_sort_values [ex_null, ex_tech] empty_fs)) ''tickers/all.csv''
     = Some [ex_tech, ex_null]
   \<and> nulls_last [ex_tech, ex_null]"
proof -
  have ne: "[ex_null, ex_tech] \<noteq> []"
    by simp
  have p: "''tickers/all.csv'' \<in> output_paths [ex_null, ex_tech]"
    by (simp add: output_paths_def)
  have f: "files (snd (save_files insertion_sort_values [ex_null, ex_tech] empty_fs))
      ''tickers/all.csv'' = Some [ex_tech, ex_null]"
    by (simp add: tickers_file_content sort_ex_null)
  show ?thesis
    using nulls_last_in_every_output [OF insertion_sort_values_ok ne, of empty_fs] p f
    by auto
qed

subsection \<open>The industry partitions\<close>

text \<open>
  Claim C6, as stated, fails when two industry values have the same sanitized name. With
  one record of industry \<^verbatim>\<open>Tech\<close> and one of industry \<^verbatim>\<open>Tech.\<close> (market capitalisations 2
  and 1, so that every sort meeting the contract orders them alike), the file named for
  \<^verbatim>\<open>Tech\<close> holds the record of \<^verbatim>\<open>Tech.\<close>, not the record whose industry is \<^verbatim>\<open>Tech\<close>.
\<close>

theorem partition_file_collision_counterexample:
  "files (snd (save_files insertion_sort_values [ex_tech, ex_tech_dot] empty_fs))
       (industry_path (safe_name ''Tech''))
     = Some [ex_tech_dot]
   \<and> filter (\<lambda>t. industry t = ''Tech'') (insertion_sort_values [ex_tech, ex_tech_dot])
     = [ex_tech]
   \<and> [ex_tech_dot] \<noteq> [ex_tech]"
proof -
  have "files (snd (save_files insertion_sort_values [ex_tech, ex_tech_dot] empty_fs))
       (industry_path (safe_name ''Tech'')) = Some [ex_tech_dot]"
    by (simp add: save_files_files sort_ex_tech industries_ex_tech safe_name_tech
        industry_path_inj ex_industry)
  moreover have "filter (\<lambda>t. industry t = ''Tech'') (insertion_sort_values [ex_tech, ex_tech_dot])
     = [ex_tech]"
    by (simp add: sort_ex_tech ex_industry)
  moreover have "[ex_tech_dot] \<noteq> [ex_tech]"
    by (simp add: ex_tech_def ex_tech_dot_def)
  ultimately show ?thesis by simp
qed

text \<open>
  Claim C6, amended. For every industry value of the input that is not empty after
  trimming, the writer writes the partition file named by the sanitization rule, and after
  the call that file holds exactly the records whose industry equals \<open>k\<close>, in the order of
  the sorted list, where \<open>k\<close> is the lexicographically greatest industry value of the input
  (not empty after trimming) with that sanitized name. So the file holds exactly the
  records of the industry itself when no other such value shares its sanitized name. A
  path that is neither one of the four listing files nor the partition path of an industry
  value that is not empty after trimming is left as it was: an empty or whitespace-only
  industry has no file written for it. The code's name is the rule's, and
  \<^verbatim>\<open>Consumer Discretionary\<close> gives \<^verbatim>\<open>consumer_discretionary\<close>.
\<close>

theorem partition_file_holds_greatest_namesake:
  assumes "sort_values_ok srt" and "t0 \<in> set tks" and "strip (industry t0) \<noteq> []"
  shows "(\<exists>k. k \<in> industry ` set tks \<and> strip k \<noteq> [] \<and> safe_name k = safe_name (industry t0)
            \<and> industry t0 \<le> k
            \<and> (\<forall>j \<in> industry ` set tks.
                  strip j \<noteq> [] \<and> safe_name j = safe_name (industry t0) \<longrightarrow> j \<le> k)
            \<and> files (snd (save_files srt tks fs)) (industry_path (safe_name (industry t0)))
                = Some (filter (\<lambda>t. industry t = k) (srt tks)))
     \<and> ((\<forall>j \<in> industry ` set tks.
            strip j \<noteq> [] \<and> safe_name j = safe_name (industry t0) \<longrightarrow> j = industry t0)
          \<longrightarrow> files (snd (save_files srt tks fs)) (industry_path (safe_name (industry t0)))
                = Some (filter (\<lambda>t. industry t = industry t0) (srt tks)))
     \<and> (\<forall>p. p \<notin> output_paths tks \<longrightarrow> files (snd (save_files srt tks fs)) p = files fs p)
     \<and> safe_name (industry t0) = spec_sanitize (industry t0)
     \<and> safe_name ''Consumer Discretionary'' = ''consumer_discretionary''"
proof -
  have ne: "tks \<noteq> []" using assms(2) by auto
  have i: "industry t0 \<in> industry ` set tks" using assms(2) by simp
  from partition_file_content [OF assms(1) ne i assms(3), of fs]
  obtain k where k: "k \<in> industry ` set tks" "strip k \<noteq> []"
      "safe_name k = safe_name (industry t0)" "industry t0 \<le> k"
      "\<forall>j \<in> industry ` set tks. strip j \<noteq> [] \<and> safe_name j = safe_name (industry t0) \<longrightarrow> j \<le> k"
      "files (snd (save_files srt tks fs)) (industry_path (safe_name (industry t0)))
         = Some (filter (\<lambda>t. industry t = k) (srt tks))"
    by blast
  have first: "\<exists>k. k \<in> industry ` set tks \<and> strip k \<noteq> [] \<and> safe_name k = safe_name (industry t0)
            \<and> industry t0 \<le> k
            \<and> (\<forall>j \<in> industry ` set tks.
                  strip j \<noteq> [] \<and> safe_name j = safe_name (industry t0) \<longrightarrow> j \<le> k)
            \<and> files (snd (save_files srt tks fs)) (industry_path (safe_name (industry t0)))
                = Some (filter (\<lambda>t. industry t = k) (srt tks))"
    using k by blast
  have second: "files (snd (save_files srt tks fs)) (industry_path (safe_name (industry t0)))
                = Some (filter (\<lambda>t. industry t = industry t0) (srt tks))"
    if "\<forall>j \<in> industry ` set tks.
            strip j \<noteq> [] \<and> safe_name j = safe_name (industry t0) \<longrightarrow> j = industry t0"
    using that k by auto
  have third: "\<forall>p. p \<notin> output_paths tks \<longrightarrow> files (snd (save_files srt tks fs)) p = files fs p"
    using files_outside_output_paths [OF assms(1) ne] by blast
  show ?thesis
    using first second third safe_name_spec safe_name_consumer by blast
qed

text \<open>
  Two records of industry \<^verbatim>\<open>Tech\<close>, one without a market capitalisation: the partition
  file holds both, the one with a value first.
\<close>

theorem partition_file_holds_greatest_namesake_witness:
  "files (snd (save_files insertion_sort_values [ex_null, ex_tech] empty_fs))
       (industry_path (safe_name ''Tech''))
     = Some [ex_tech, ex_null]"
proof -
  have t0: "ex_tech \<in> set [ex_null, ex_tech]" "strip (industry ex_tech) \<noteq> []"
    by (simp_all add: ex_industry strip_tech)
  have only: "\<forall>j \<in> industry ` set [ex_null, ex_tech].
      strip j \<noteq> [] \<and> safe_name j = safe_name (industry ex_tech) \<longrightarrow> j = industry ex_tech"
    by (simp add: ex_industry)
  have "files (snd (save_files insertion_sort_values [ex_null, ex_tech] empty_fs))
          (industry_path (safe_name (industry ex_tech)))
        = Some (filter (\<lambda>t. industry t = industry ex_tech)
                  (insertion_sort_values [ex_null, ex_tech]))"
    using partition_file_holds_greatest_namesake [OF insertion_sort_values_ok t0, of empty_fs, THEN conjunct2, THEN conjunct1] only
    by (rule mp)
  then show ?thesis
    by (simp add: sort_ex_null ex_industry)
qed

subsection \<open>Sanitized names collide\<close>



end
